theory Spec2Isabelle
  imports Complex_Main
begin

section \<open>The mask canvas\<close>

text \<open>
  The editor paints on an HTML canvas through its 2D context. Only the calls the source
  makes are modelled. A bitmap is represented by the sequence of rendering calls that
  produced it, so equal terms denote equal pixel contents. JavaScript numbers are
  modelled as exact reals; a non-finite number (a division by zero) is \<open>None\<close>.
\<close>

type_synonym point = "real \<times> real"

type_synonym subpath = "point list \<times> bool"

datatype bitmap =
    Transparent
  | Stroked bitmap string real string string "subpath list"
  | Pasted bitmap nat nat bitmap

record imagedata =
  iwidth :: nat
  iheight :: nat
  idata :: bitmap

record canvas =
  cwidth :: nat
  cheight :: nat
  bitmap :: bitmap
  strokeStyle :: string
  lineWidth :: real
  lineCap :: string
  lineJoin :: string
  path :: "subpath list"

text \<open>A canvas element as the browser creates it: 300 by 150, transparent, default context.\<close>

definition newCanvas :: canvas where
  "newCanvas = \<lparr>cwidth = 300, cheight = 150, bitmap = Transparent,
     strokeStyle = ''#000000'', lineWidth = 1, lineCap = ''butt'', lineJoin = ''miter'',
     path = []\<rparr>"

text \<open>Assigning \<open>canvas.width\<close> and \<open>canvas.height\<close> clears the bitmap and resets the context.\<close>

definition setSize :: "nat \<Rightarrow> nat \<Rightarrow> canvas \<Rightarrow> canvas" where
  "setSize w h c = newCanvas\<lparr>cwidth := w, cheight := h\<rparr>"

text \<open>
  \<open>ctx.getImageData(0, 0, canvas.width, canvas.height)\<close>: the whole bitmap; the call
  throws when a dimension is zero.
\<close>

definition getImageData :: "canvas \<Rightarrow> imagedata option" where
  "getImageData c =
     (if cwidth c = 0 \<or> cheight c = 0 then None
      else Some \<lparr>iwidth = cwidth c, iheight = cheight c, idata = bitmap c\<rparr>)"

text \<open>
  \<open>ctx.putImageData(d, 0, 0)\<close> overwrites the rectangle the data covers: the whole
  bitmap when the sizes agree, a part of it otherwise.
\<close>

definition putImageData :: "imagedata \<Rightarrow> canvas \<Rightarrow> canvas" where
  "putImageData d c =
     (if iwidth d = cwidth c \<and> iheight d = cheight c then c\<lparr>bitmap := idata d\<rparr>
      else c\<lparr>bitmap := Pasted (bitmap c) (iwidth d) (iheight d) (idata d)\<rparr>)"

definition beginPath :: "canvas \<Rightarrow> canvas" where
  "beginPath c = c\<lparr>path := []\<rparr>"

text \<open>\<open>moveTo\<close> and \<open>lineTo\<close> ignore a call with a non-finite coordinate.\<close>

definition moveTo :: "real option \<Rightarrow> real option \<Rightarrow> canvas \<Rightarrow> canvas" where
  "moveTo x y c =
     (case (x, y) of
        (Some a, Some b) \<Rightarrow> c\<lparr>path := path c @ [([(a, b)], False)]\<rparr>
      | _ \<Rightarrow> c)"

definition lineTo :: "real option \<Rightarrow> real option \<Rightarrow> canvas \<Rightarrow> canvas" where
  "lineTo x y c =
     (case (x, y) of
        (Some a, Some b) \<Rightarrow>
          (if path c = [] then c\<lparr>path := [([(a, b)], False)]\<rparr>
           else c\<lparr>path := butlast (path c) @
                   [(fst (last (path c)) @ [(a, b)], snd (last (path c)))]\<rparr>)
      | _ \<Rightarrow> c)"

definition stroke :: "canvas \<Rightarrow> canvas" where
  "stroke c = c\<lparr>bitmap :=
     Stroked (bitmap c) (strokeStyle c) (lineWidth c) (lineCap c) (lineJoin c) (path c)\<rparr>"

definition closePath :: "canvas \<Rightarrow> canvas" where
  "closePath c =
     (if path c = [] then c
      else c\<lparr>path := butlast (path c) @
              [(fst (last (path c)), True), (take 1 (fst (last (path c))), False)]\<rparr>)"

text \<open>The \<open>lineWidth\<close> setter ignores a value that is not positive.\<close>

definition setLineWidth :: "real \<Rightarrow> canvas \<Rightarrow> canvas" where
  "setLineWidth b c = (if 0 < b then c\<lparr>lineWidth := b\<rparr> else c)"

section \<open>Component state\<close>

text \<open>
  The state of \<open>ImageEditor\<close>: the six \<open>useState\<close> cells and the canvas behind
  \<open>drawingCanvasRef\<close> (\<open>None\<close> while the element is not mounted). The image canvas and
  the container are mounted and unmounted together with the drawing canvas.
\<close>

record editor =
  isDrawing :: bool
  isLoading :: bool
  error :: "string option"
  brushSize :: real
  history :: "imagedata list"
  historyIndex :: int
  drawingCanvas :: "canvas option"

definition initial :: editor where
  "initial = \<lparr>isDrawing = False, isLoading = False, error = None, brushSize = 40,
     history = [], historyIndex = - 1, drawingCanvas = Some newCanvas\<rparr>"

text \<open>
  A state setter does not change the value a handler has already read: the handler's
  closure keeps the values of the render that created it, and the calls of the setters
  are queued and applied in order afterwards. A handler therefore yields the list of its
  setter calls.
\<close>

datatype update =
    SetIsDrawing bool
  | SetIsLoading bool
  | SetError "string option"
  | SetBrushSize real
  | SetHistory "imagedata list"
  | SetHistoryIndex int

fun apply_update :: "update \<Rightarrow> editor \<Rightarrow> editor" where
  "apply_update (SetIsDrawing b) s = s\<lparr>isDrawing := b\<rparr>"
| "apply_update (SetIsLoading b) s = s\<lparr>isLoading := b\<rparr>"
| "apply_update (SetError e) s = s\<lparr>error := e\<rparr>"
| "apply_update (SetBrushSize b) s = s\<lparr>brushSize := b\<rparr>"
| "apply_update (SetHistory h) s = s\<lparr>history := h\<rparr>"
| "apply_update (SetHistoryIndex i) s = s\<lparr>historyIndex := i\<rparr>"

definition commit :: "update list \<Rightarrow> editor \<Rightarrow> editor" where
  "commit us s = fold apply_update us s"

text \<open>
  The component returns the spinner while \<open>isLoading\<close> holds and the canvases and
  buttons otherwise (\<open>isLoading ? ... : ...\<close> in its JSX). The elements of the branch
  that is not returned are removed and their refs set to null; when the branch is
  returned again, new elements are created. \<open>drawImage\<close> runs when the component is
  mounted, when \<open>imageFile\<close> changes and when the window is resized, so a canvas
  created that way stays as the browser made it.
\<close>

definition render :: "editor \<Rightarrow> editor" where
  "render s =
     (if isLoading s then s\<lparr>drawingCanvas := None\<rparr>
      else (case drawingCanvas s of
              None \<Rightarrow> s\<lparr>drawingCanvas := Some newCanvas\<rparr>
            | Some c \<Rightarrow> s))"

text \<open>The end of a handler: the canvas as the handler left it, the queued updates, a render.\<close>

definition finish :: "editor \<Rightarrow> canvas option \<Rightarrow> update list \<Rightarrow> editor" where
  "finish s cv us = render (commit us (s\<lparr>drawingCanvas := cv\<rparr>))"

section \<open>History\<close>

text \<open>\<open>xs.slice(0, e)\<close> and \<open>xs[i]\<close> of JavaScript arrays, for integers \<open>e\<close> and \<open>i\<close>.\<close>

definition js_slice :: "'a list \<Rightarrow> int \<Rightarrow> 'a list" where
  "js_slice xs e =
     (let n = int (length xs);
          k = (if e < 0 then max (n + e) 0 else min e n)
      in take (nat k) xs)"

definition elemAt :: "'a list \<Rightarrow> int \<Rightarrow> 'a option" where
  "elemAt xs i = (if 0 \<le> i \<and> i < int (length xs) then Some (xs ! nat i) else None)"

text \<open>
  \<open>saveToHistory\<close> reads \<open>history\<close> and \<open>historyIndex\<close> of its closure (the first two
  arguments) and the canvas as it is at the call. When \<open>getImageData\<close> throws, no
  setter is called.
\<close>

definition saveToHistory :: "imagedata list \<Rightarrow> int \<Rightarrow> canvas option \<Rightarrow> update list" where
  "saveToHistory h i cv =
     (case cv of
        None \<Rightarrow> []
      | Some c \<Rightarrow>
          (let newHistory = js_slice h (i + 1) in
           case getImageData c of
             None \<Rightarrow> []
           | Some newImageData \<Rightarrow>
               [SetHistory (newHistory @ [newImageData]),
                SetHistoryIndex (int (length newHistory))]))"

definition handleUndo :: "editor \<Rightarrow> editor" where
  "handleUndo s =
     (if historyIndex s > 0 then
        (let newIndex = historyIndex s - 1 in
         case drawingCanvas s of
           None \<Rightarrow> s
         | Some c \<Rightarrow>
             (case elemAt (history s) newIndex of
                None \<Rightarrow> s
              | Some d \<Rightarrow> finish s (Some (putImageData d c)) [SetHistoryIndex newIndex]))
      else s)"

definition handleRedo :: "editor \<Rightarrow> editor" where
  "handleRedo s =
     (if historyIndex s < int (length (history s)) - 1 then
        (let newIndex = historyIndex s + 1 in
         case drawingCanvas s of
           None \<Rightarrow> s
         | Some c \<Rightarrow>
             (case elemAt (history s) newIndex of
                None \<Rightarrow> s
              | Some d \<Rightarrow> finish s (Some (putImageData d c)) [SetHistoryIndex newIndex]))
      else s)"

text \<open>
  \<open>handleClear\<close> calls \<open>saveToHistory\<close> after its own two setters; \<open>saveToHistory\<close>
  still reads the \<open>history\<close> and \<open>historyIndex\<close> of the render the handler belongs to.
\<close>

definition handleClear :: "editor \<Rightarrow> editor" where
  "handleClear s =
     (case drawingCanvas s of
        None \<Rightarrow> s
      | Some c \<Rightarrow>
          (case elemAt (history s) 0 of
             None \<Rightarrow> s
           | Some h0 \<Rightarrow>
               (let c' = putImageData h0 c in
                finish s (Some c')
                  ([SetHistory [h0], SetHistoryIndex 0] @
                   saveToHistory (history s) (historyIndex s) (Some c')))))"

section \<open>Pointer input and strokes\<close>

text \<open>
  A mouse event carries \<open>clientX\<close> and \<open>clientY\<close>; a touch event carries the list
  \<open>touches\<close>. \<open>rect\<close> is what \<open>getBoundingClientRect\<close> returns for the drawing
  canvas when the event is handled.
\<close>

datatype pointer = Mouse real real | Touch "point list"

record rect =
  rleft :: real
  rtop :: real
  rwidth :: real
  rheight :: real

datatype thrown = ErrorObj string | OtherValue

text \<open>\<open>e.touches[0].clientX\<close> throws a TypeError when \<open>touches\<close> is empty.\<close>

fun client :: "pointer \<Rightarrow> point option" where
  "client (Mouse x y) = Some (x, y)"
| "client (Touch []) = None"
| "client (Touch (t # ts)) = Some t"

text \<open>
  \<open>a * (w / d)\<close> for finite \<open>a\<close> and \<open>d\<close> and a canvas dimension \<open>w\<close>: with \<open>d = 0\<close>
  the quotient is infinite or NaN, and so is the product.
\<close>

definition scaled :: "real \<Rightarrow> nat \<Rightarrow> real \<Rightarrow> real option" where
  "scaled a w d = (if d = 0 then None else Some (a * (real w / d)))"

definition getCoordinates ::
  "canvas option \<Rightarrow> rect \<Rightarrow> pointer \<Rightarrow> thrown + (real option \<times> real option) option" where
  "getCoordinates cv r e =
     (case cv of
        None \<Rightarrow> Inr None
      | Some canvas \<Rightarrow>
          (case client e of
             None \<Rightarrow> Inl (ErrorObj ''TypeError'')
           | Some (clientX, clientY) \<Rightarrow>
               Inr (Some (scaled (clientX - rleft r) (cwidth canvas) (rwidth r),
                          scaled (clientY - rtop r) (cheight canvas) (rheight r)))))"

text \<open>A handler that throws before its first effect leaves the state as it was.\<close>

definition startDrawing :: "pointer \<Rightarrow> rect \<Rightarrow> editor \<Rightarrow> editor" where
  "startDrawing e r s =
     (case getCoordinates (drawingCanvas s) r e of
        Inl t \<Rightarrow> s
      | Inr None \<Rightarrow> s
      | Inr (Some (x, y)) \<Rightarrow>
          (case drawingCanvas s of
             None \<Rightarrow> s
           | Some c \<Rightarrow>
               (let c1 = c\<lparr>strokeStyle := ''rgba(239, 68, 68, 1.0)''\<rparr>;
                    c2 = setLineWidth (brushSize s) c1;
                    c3 = c2\<lparr>lineCap := ''round'', lineJoin := ''round''\<rparr>;
                    c4 = moveTo x y (beginPath c3)
                in finish s (Some c4) [SetIsDrawing True])))"

definition draw :: "pointer \<Rightarrow> rect \<Rightarrow> editor \<Rightarrow> editor" where
  "draw e r s =
     (if \<not> isDrawing s then s
      else (case getCoordinates (drawingCanvas s) r e of
              Inl t \<Rightarrow> s
            | Inr None \<Rightarrow> s
            | Inr (Some (x, y)) \<Rightarrow>
                (case drawingCanvas s of
                   None \<Rightarrow> s
                 | Some c \<Rightarrow> finish s (Some (stroke (lineTo x y c))) [])))"

definition stopDrawing :: "editor \<Rightarrow> editor" where
  "stopDrawing s =
     (if \<not> isDrawing s then s
      else (case drawingCanvas s of
              None \<Rightarrow> s
            | Some c \<Rightarrow>
                (let c' = closePath c in
                 finish s (Some c')
                   ([SetIsDrawing False] @
                    saveToHistory (history s) (historyIndex s) (Some c')))))"

section \<open>Loading the image\<close>

text \<open>
  The \<open>onload\<close> callback of \<open>drawImage\<close> (the size it computes is
  \<open>displayGeometry\<close>), for an image of \<open>iw\<close> by \<open>ih\<close> pixels, a
  container of width \<open>clientWidth\<close> and a window of height \<open>innerHeight\<close>. The canvas
  takes the integer part of the computed size. With \<open>ih = 0\<close> the quotient \<open>ratio\<close> is
  not finite in JavaScript and \<open>0\<close> here; the computed height is \<open>0\<close> in both, and
  \<open>getImageData\<close> throws.
\<close>

definition displayGeometry :: "nat \<Rightarrow> nat \<Rightarrow> nat \<Rightarrow> nat \<Rightarrow> real \<times> real" where
  "displayGeometry iw ih clientWidth innerHeight =
     (let maxWidth = real clientWidth;
          maxHeight = real innerHeight * (6 / 10);
          ratio = real iw / real ih;
          (width1, height1) =
             (if real iw > maxWidth then (maxWidth, maxWidth / ratio)
              else (real iw, real ih))
      in if height1 > maxHeight then (maxHeight * ratio, maxHeight)
         else (width1, height1))"

definition onload :: "nat \<Rightarrow> nat \<Rightarrow> nat \<Rightarrow> nat \<Rightarrow> editor \<Rightarrow> editor" where
  "onload iw ih clientWidth innerHeight s =
     (case drawingCanvas s of
        None \<Rightarrow> s
      | Some c \<Rightarrow>
          (let (width, height) = displayGeometry iw ih clientWidth innerHeight;
               c' = setSize (nat \<lfloor>width\<rfloor>) (nat \<lfloor>height\<rfloor>) c
           in case getImageData c' of
                None \<Rightarrow> s\<lparr>drawingCanvas := Some c'\<rparr>
              | Some initialImageData \<Rightarrow>
                  finish s (Some c') [SetHistory [initialImageData], SetHistoryIndex 0]))"

section \<open>Sessions\<close>

text \<open>
  The events of an editing session, each handled to completion before the next. Loading
  an image again, which starts a new history, and a submission are not among them.
\<close>

datatype event =
    PointerDown pointer rect
  | PointerMove pointer rect
  | PointerUp
  | Undo
  | Redo
  | Clear
  | BrushSize real

fun step :: "event \<Rightarrow> editor \<Rightarrow> editor" where
  "step (PointerDown e r) s = startDrawing e r s"
| "step (PointerMove e r) s = draw e r s"
| "step PointerUp s = stopDrawing s"
| "step Undo s = handleUndo s"
| "step Redo s = handleRedo s"
| "step Clear s = handleClear s"
| "step (BrushSize b) s = finish s (drawingCanvas s) [SetBrushSize b]"

definition run :: "event list \<Rightarrow> editor \<Rightarrow> editor" where
  "run evs s = fold step evs s"

text \<open>One completed stroke: pointer down, any number of moves, pointer up.\<close>

definition completedStroke :: "pointer \<Rightarrow> rect \<Rightarrow> (pointer \<times> rect) list \<Rightarrow> event list" where
  "completedStroke e r ms = PointerDown e r # map (\<lambda>(e', r'). PointerMove e' r') ms @ [PointerUp]"

section \<open>The remote edit client\<close>

text \<open>
  What the generative service does is an input of the model: the constructor of the
  client may throw, the call may throw, or the call returns a response. A response is
  read through \<open>response.candidates?.[0]?.content?.parts?.[0]\<close>; a part either has
  inline data or not.
\<close>

record blob =
  data :: string
  mimeType :: string

record part =
  inlineData :: "blob option"

record content =
  parts :: "part list option"

record candidate =
  contentOf :: "content option"

record response =
  candidates :: "candidate list option"

record service =
  clientInit :: "thrown option"
  call :: "thrown + response"

definition firstPart :: "response \<Rightarrow> part option" where
  "firstPart r =
     (case candidates r of
        None \<Rightarrow> None
      | Some cs \<Rightarrow>
          (case cs of
             [] \<Rightarrow> None
           | c # _ \<Rightarrow>
               (case contentOf c of
                  None \<Rightarrow> None
                | Some ct \<Rightarrow>
                    (case parts ct of
                       None \<Rightarrow> None
                     | Some ps \<Rightarrow> (case ps of [] \<Rightarrow> None | p # _ \<Rightarrow> Some p)))))"

definition refusalMessage :: string where
  "refusalMessage = ''The API did not return an image. It might be due to a safety policy violation or an unexpected response format.''"

text \<open>The body of the \<open>try\<close> block, the same in both versions of \<open>removeObject\<close>.\<close>

definition tryBlock :: "thrown + response \<Rightarrow> thrown + string" where
  "tryBlock outcome =
     (case outcome of
        Inl t \<Rightarrow> Inl t
      | Inr r \<Rightarrow>
          (case firstPart r of
             None \<Rightarrow> Inl (ErrorObj refusalMessage)
           | Some p \<Rightarrow>
               (case inlineData p of
                  None \<Rightarrow> Inl (ErrorObj refusalMessage)
                | Some b \<Rightarrow> Inr (''data:'' @ mimeType b @ '';base64,'' @ data b))))"

text \<open>The flattened image sent to the service: its size and the mask drawn over the photo.\<close>

record composite =
  pwidth :: int
  pheight :: int
  overlay :: imagedata

text \<open>\<open>removeObject\<close> of \<open>src/services/geminiService.ts\<close>, the one the editor calls.\<close>

definition removeObject :: "service \<Rightarrow> composite \<Rightarrow> string \<Rightarrow> thrown + string" where
  "removeObject svc markedImageBase64 mime =
     (case clientInit svc of
        Some t \<Rightarrow> Inl t
      | None \<Rightarrow>
          (case tryBlock (call svc) of
             Inr v \<Rightarrow> Inr v
           | Inl err \<Rightarrow>
               (let errorMessage = (case err of ErrorObj m \<Rightarrow> m | OtherValue \<Rightarrow> ''Unknown error'')
                in Inl (ErrorObj (''Failed to process the image: '' @ errorMessage)))))"

text \<open>
  \<open>removeObject\<close> of the second service file (\<open>part_000\<close>), which takes the photo and
  the mask as two images and first checks that the API key is set.
\<close>

definition removeObject_part000 ::
  "bool \<Rightarrow> service \<Rightarrow> string \<Rightarrow> string \<Rightarrow> string \<Rightarrow> thrown + string" where
  "removeObject_part000 apiKeySet svc originalImageBase64 maskImageBase64 mime =
     (if \<not> apiKeySet then
        Inl (ErrorObj ''VERCEL_PUBLIC_API_KEY environment variable is not set. Please add it to your Vercel project settings.'')
      else
        (case clientInit svc of
           Some t \<Rightarrow> Inl t
         | None \<Rightarrow>
             (case tryBlock (call svc) of
                Inr v \<Rightarrow> Inr v
              | Inl err \<Rightarrow>
                  Inl (ErrorObj ''Failed to process the image with the AI model. Please try again.''))))"

section \<open>Submission\<close>

definition MAX_DIMENSION :: nat where
  "MAX_DIMENSION = 1024"

text \<open>\<open>Math.round\<close>: the nearest integer, a half rounded up.\<close>

definition js_round :: "real \<Rightarrow> int" where
  "js_round x = \<lfloor>x + 1 / 2\<rfloor>"

text \<open>
  The size of the composite, from \<open>naturalWidth\<close> and \<open>naturalHeight\<close> of the photo.
  A division by zero needs \<open>naturalHeight = 0\<close> in the first branch, where JavaScript
  computes \<open>1024 / Infinity = 0\<close> and HOL \<open>1024 / 0 = 0\<close>.
\<close>

definition targetDimensions :: "nat \<Rightarrow> nat \<Rightarrow> int \<times> int" where
  "targetDimensions naturalWidth naturalHeight =
     (if naturalWidth > MAX_DIMENSION \<or> naturalHeight > MAX_DIMENSION then
        (let ratio = real naturalWidth / real naturalHeight in
         if naturalWidth > naturalHeight then
           (int MAX_DIMENSION, js_round (real MAX_DIMENSION / ratio))
         else
           (js_round (real MAX_DIMENSION * ratio), int MAX_DIMENSION))
      else (int naturalWidth, int naturalHeight))"

text \<open>\<open>s.includes(t)\<close> on strings.\<close>

primrec js_includes :: "string \<Rightarrow> string \<Rightarrow> bool" where
  "js_includes [] t = (t = [])"
| "js_includes (x # xs) t = (take (length t) (x # xs) = t \<or> js_includes xs t)"

text \<open>
  What a submission meets outside the component: whether the photo decodes (and its
  natural size), an exception of the canvas calls that build the composite, whether the
  composite canvas has a 2D context, the type of the file, and the service.
\<close>

record environment =
  decoded :: "(nat \<times> nat) option"
  contextAvailable :: bool
  compositing :: "thrown option"
  fileType :: string
  remote :: service

datatype effect =
    Alert string
  | RemoteCall composite string
  | OnComplete string
  | OnAuthError
  | ConsoleError thrown

definition validationMessage :: string where
  "validationMessage = ''Please select an area to remove first.''"

text \<open>The \<open>try\<close> block of \<open>handleProcessImage\<close>, with the canvas the handler read at its start.\<close>

definition tryBody :: "environment \<Rightarrow> canvas \<Rightarrow> (thrown + string) \<times> effect list" where
  "tryBody env c =
     (case decoded env of
        None \<Rightarrow> (Inl (ErrorObj ''Failed to load image for processing.''), [])
      | Some (naturalWidth, naturalHeight) \<Rightarrow>
          (let (width, height) = targetDimensions naturalWidth naturalHeight in
           if \<not> contextAvailable env then
             (Inl (ErrorObj ''Could not get composite canvas context''), [])
           else
             (case compositing env of
                Some t \<Rightarrow> (Inl t, [])
              | None \<Rightarrow>
                  (let mime = (if fileType env = ''image/png'' then ''image/png''
                               else ''image/jpeg'');
                       markedImageBase64 =
                         \<lparr>pwidth = width, pheight = height,
                          overlay = \<lparr>iwidth = cwidth c, iheight = cheight c,
                                     idata = bitmap c\<rparr>\<rparr>
                   in (removeObject (remote env) markedImageBase64 mime,
                       [RemoteCall markedImageBase64 mime])))))"

text \<open>
  \<open>handleProcessImage\<close>, from the click to the end of its \<open>finally\<close> block, with the
  effects it has outside the component in order. Between the two renders the canvases
  are not mounted, so no other handler of the editor runs in between.
\<close>

definition handleProcessImage :: "environment \<Rightarrow> editor \<Rightarrow> editor \<times> effect list" where
  "handleProcessImage env s =
     (case drawingCanvas s of
        None \<Rightarrow> (s, [Alert validationMessage])
      | Some c \<Rightarrow>
          (if historyIndex s = 0 then (s, [Alert validationMessage])
           else
             (let s1 = finish s (Some c) [SetIsLoading True, SetError None] in
              case tryBody env c of
                (Inr resultBase64, effs) \<Rightarrow>
                  (finish s1 (drawingCanvas s1) [SetIsLoading False],
                   effs @ [OnComplete resultBase64])
              | (Inl err, effs) \<Rightarrow>
                  (let errorMessage =
                         (case err of ErrorObj m \<Rightarrow> m
                          | OtherValue \<Rightarrow> ''An unknown error occurred.'')
                   in (finish s1 (drawingCanvas s1)
                         [SetError (Some errorMessage), SetIsLoading False],
                       effs @
                       (if js_includes errorMessage ''Requested entity was not found'' \<or>
                           js_includes errorMessage ''API key'' \<or>
                           js_includes errorMessage ''403''
                        then [OnAuthError] else []) @
                       [ConsoleError err])))))"

section \<open>Consistency of a session\<close>

text \<open>
  Between events of an editing session the canvas is mounted and has a positive size,
  the index points into the history, every snapshot has the size of the canvas, and,
  unless a stroke is in progress, the canvas shows the snapshot at the index.
\<close>

definition consistent :: "editor \<Rightarrow> bool" where
  "consistent s =
     (\<not> isLoading s \<and>
      (case drawingCanvas s of
         None \<Rightarrow> False
       | Some c \<Rightarrow>
           0 < cwidth c \<and> 0 < cheight c \<and>
           0 \<le> historyIndex s \<and> historyIndex s < int (length (history s)) \<and>
           list_all (\<lambda>d. iwidth d = cwidth c \<and> iheight d = cheight c) (history s) \<and>
           (\<not> isDrawing s \<longrightarrow> elemAt (history s) (historyIndex s) = getImageData c)))"

section \<open>An example session\<close>

text \<open>
  A photo of 800 by 600 pixels in a container 1000 wide and a window 2000 high; the
  canvas is shown at half its size, 10 from the left and 20 from the top of the viewport.
\<close>

definition exampleRect :: rect where
  "exampleRect = \<lparr>rleft = 10, rtop = 20, rwidth = 400, rheight = 300\<rparr>"

definition exampleLoaded :: editor where
  "exampleLoaded = onload 800 600 1000 2000 initial"

definition exampleStroke :: "event list" where
  "exampleStroke = completedStroke (Mouse 60 70) exampleRect [(Mouse 110 120, exampleRect)]"

text \<open>The mask after \<open>n\<close> such strokes, its snapshot, and the canvas showing it.\<close>

primrec exampleInk :: "nat \<Rightarrow> bitmap" where
  "exampleInk 0 = Transparent"
| "exampleInk (Suc n) =
     Stroked (exampleInk n) ''rgba(239, 68, 68, 1.0)'' 40 ''round'' ''round''
       [([(100, 100), (200, 200)], False)]"

definition exampleSnapshot :: "nat \<Rightarrow> imagedata" where
  "exampleSnapshot n = \<lparr>iwidth = 800, iheight = 600, idata = exampleInk n\<rparr>"

definition exampleCanvas :: "nat \<Rightarrow> subpath list \<Rightarrow> canvas" where
  "exampleCanvas n p =
     \<lparr>cwidth = 800, cheight = 600, bitmap = exampleInk n,
      strokeStyle = ''rgba(239, 68, 68, 1.0)'', lineWidth = 40, lineCap = ''round'',
      lineJoin = ''round'', path = p\<rparr>"

text \<open>The session after \<open>n\<close> strokes, for \<open>n\<close> at least 1.\<close>

definition exampleAfter :: "nat \<Rightarrow> editor" where
  "exampleAfter n =
     \<lparr>isDrawing = False, isLoading = False, error = None, brushSize = 40,
      history = map exampleSnapshot [0..<Suc n], historyIndex = int n,
      drawingCanvas = Some (exampleCanvas n
         [([(100, 100), (200, 200)], True), ([(100, 100)], False)])\<rparr>"

text \<open>Five strokes, two undos, and the pointer down again.\<close>

definition exampleUndone :: editor where
  "exampleUndone =
     \<lparr>isDrawing = True, isLoading = False, error = None, brushSize = 40,
      history = map exampleSnapshot [0, 1, 2, 3, 4, 5], historyIndex = 3,
      drawingCanvas = Some (exampleCanvas 3 [([(100, 100)], False)])\<rparr>"


definition exampleCleared :: editor where
  "exampleCleared = run (exampleStroke @ [Clear]) exampleLoaded"

text \<open>
  A service that answers with a text part and no image, one whose call fails, and a
  submission of a JPEG photo of 800 by 600 pixels that meets the first.
\<close>

definition exampleNoImage :: service where
  "exampleNoImage =
     \<lparr>clientInit = None,
      call = Inr \<lparr>candidates = Some [\<lparr>contentOf = Some \<lparr>parts = Some [\<lparr>inlineData = None\<rparr>]\<rparr>\<rparr>]\<rparr>\<rparr>"

definition exampleNetworkDown :: service where
  "exampleNetworkDown = \<lparr>clientInit = None, call = Inl (ErrorObj ''fetch failed'')\<rparr>"

definition exampleRefusal :: environment where
  "exampleRefusal =
     \<lparr>decoded = Some (800, 600), contextAvailable = True, compositing = None,
      fileType = ''image/jpeg'', remote = exampleNoImage\<rparr>"



section \<open>Basic facts\<close>

lemmas eval_defs = run_def completedStroke_def startDrawing_def draw_def stopDrawing_def
  handleUndo_def handleRedo_def handleClear_def saveToHistory_def finish_def render_def commit_def
  getCoordinates_def scaled_def getImageData_def putImageData_def setSize_def newCanvas_def
  js_slice_def elemAt_def beginPath_def moveTo_def lineTo_def stroke_def closePath_def
  setLineWidth_def Let_def

lemma exampleLoaded_eq:
  "exampleLoaded =
     \<lparr>isDrawing = False, isLoading = False, error = None, brushSize = 40,
      history = [\<lparr>iwidth = 800, iheight = 600, idata = Transparent\<rparr>],
      historyIndex = 0,
      drawingCanvas = Some (newCanvas\<lparr>cwidth := 800, cheight := 600\<rparr>)\<rparr>"
  by (simp add: exampleLoaded_def onload_def displayGeometry_def initial_def eval_defs)

lemmas ctx_defs = beginPath_def moveTo_def lineTo_def stroke_def closePath_def setLineWidth_def

lemma js_slice_valid:
  "0 \<le> i \<Longrightarrow> i < int (length h) \<Longrightarrow> js_slice h (i + 1) = take (nat i + 1) h"
  by (simp add: js_slice_def Let_def nat_add_distrib)

lemma getImageData_closePath: "getImageData (closePath c) = getImageData c"
  by (simp add: getImageData_def closePath_def)

lemma getImageData_sized:
  "0 < cwidth c \<Longrightarrow> 0 < cheight c \<Longrightarrow>
   getImageData c = Some \<lparr>iwidth = cwidth c, iheight = cheight c, idata = bitmap c\<rparr>"
  by (simp add: getImageData_def)

lemma putImageData_fits:
  "iwidth d = cwidth c \<Longrightarrow> iheight d = cheight c \<Longrightarrow> putImageData d c = c\<lparr>bitmap := idata d\<rparr>"
  by (simp add: putImageData_def)

lemma getImageData_putImageData:
  "iwidth d = cwidth c \<Longrightarrow> iheight d = cheight c \<Longrightarrow> 0 < cwidth c \<Longrightarrow> 0 < cheight c \<Longrightarrow>
   getImageData (putImageData d c) = Some d"
  by (simp add: putImageData_def getImageData_def)

lemma elemAt_Some: "elemAt xs i = Some x \<longleftrightarrow> 0 \<le> i \<and> i < int (length xs) \<and> xs ! nat i = x"
  by (auto simp: elemAt_def)

lemma elemAt_valid: "0 \<le> i \<Longrightarrow> i < int (length xs) \<Longrightarrow> elemAt xs i = Some (xs ! nat i)"
  by (simp add: elemAt_def)

lemma elemAt_snoc_last: "elemAt (xs @ [x]) (int (length xs)) = Some x"
  by (simp add: elemAt_def)

lemma elemAt_take_snoc_0: "0 < n \<Longrightarrow> elemAt (take n xs @ [x]) 0 = (if xs = [] then Some x else elemAt xs 0)"
  by (cases xs; cases n) (simp_all add: elemAt_def)

subsection \<open>What each handler does while the canvas is mounted\<close>

lemma stopDrawing_effect:
  assumes "isDrawing s" "\<not> isLoading s" "drawingCanvas s = Some c" "getImageData c = Some d"
  shows "stopDrawing s =
     s\<lparr>drawingCanvas := Some (closePath c), isDrawing := False,
        history := js_slice (history s) (historyIndex s + 1) @ [d],
        historyIndex := int (length (js_slice (history s) (historyIndex s + 1)))\<rparr>"
  using assms
  by (simp add: stopDrawing_def saveToHistory_def getImageData_closePath finish_def render_def
      commit_def Let_def)

lemma handleUndo_effect:
  assumes "0 < historyIndex s" "\<not> isLoading s" "drawingCanvas s = Some c"
    "elemAt (history s) (historyIndex s - 1) = Some d"
  shows "handleUndo s = s\<lparr>drawingCanvas := Some (putImageData d c), historyIndex := historyIndex s - 1\<rparr>"
  using assms by (simp add: handleUndo_def finish_def render_def commit_def Let_def)

lemma handleRedo_effect:
  assumes "historyIndex s < int (length (history s)) - 1" "\<not> isLoading s" "drawingCanvas s = Some c"
    "elemAt (history s) (historyIndex s + 1) = Some d"
  shows "handleRedo s = s\<lparr>drawingCanvas := Some (putImageData d c), historyIndex := historyIndex s + 1\<rparr>"
  using assms by (simp add: handleRedo_def finish_def render_def commit_def Let_def)

lemma handleClear_effect:
  assumes "\<not> isLoading s" "drawingCanvas s = Some c" "elemAt (history s) 0 = Some h0"
    "getImageData (putImageData h0 c) = Some d"
  shows "handleClear s =
     s\<lparr>drawingCanvas := Some (putImageData h0 c),
        history := js_slice (history s) (historyIndex s + 1) @ [d],
        historyIndex := int (length (js_slice (history s) (historyIndex s + 1)))\<rparr>"
  using assms
  by (simp add: handleClear_def saveToHistory_def finish_def render_def commit_def Let_def)

lemma startDrawing_frame:
  "\<not> isLoading s \<Longrightarrow>
   history (startDrawing e r s) = history s \<and>
   historyIndex (startDrawing e r s) = historyIndex s \<and>
   \<not> isLoading (startDrawing e r s)"
  by (simp add: startDrawing_def getCoordinates_def finish_def render_def commit_def Let_def
      split: option.splits sum.splits prod.splits)

lemma startDrawing_canvas:
  assumes "\<not> isLoading s" "drawingCanvas s = Some c"
  shows "\<exists>c'. drawingCanvas (startDrawing e r s) = Some c' \<and>
           cwidth c' = cwidth c \<and> cheight c' = cheight c \<and> bitmap c' = bitmap c"
  using assms
  by (cases "client e")
     (auto simp: startDrawing_def getCoordinates_def finish_def render_def commit_def Let_def
      ctx_defs split: option.splits)

lemma startDrawing_isDrawing:
  assumes "\<not> isLoading s" "drawingCanvas s = Some c"
  shows "isDrawing (startDrawing e r s) = (client e \<noteq> None \<or> isDrawing s)"
  using assms
  by (cases "client e")
     (auto simp: startDrawing_def getCoordinates_def finish_def render_def commit_def Let_def
      split: option.splits)

lemma draw_frame:
  "\<not> isLoading s \<Longrightarrow>
   history (draw e r s) = history s \<and>
   historyIndex (draw e r s) = historyIndex s \<and>
   isDrawing (draw e r s) = isDrawing s \<and>
   \<not> isLoading (draw e r s)"
  by (simp add: draw_def getCoordinates_def finish_def render_def commit_def Let_def
      split: option.splits sum.splits prod.splits)

lemma draw_canvas:
  assumes "\<not> isLoading s" "drawingCanvas s = Some c"
  shows "\<exists>c'. drawingCanvas (draw e r s) = Some c' \<and>
           cwidth c' = cwidth c \<and> cheight c' = cheight c \<and>
           (\<not> isDrawing s \<longrightarrow> c' = c)"
  using assms
  by (cases "client e")
     (auto simp: draw_def getCoordinates_def finish_def render_def commit_def Let_def
      ctx_defs split: option.splits)

lemma consistentI:
  assumes "\<not> isLoading s" "drawingCanvas s = Some c" "0 < cwidth c" "0 < cheight c"
    "0 \<le> historyIndex s" "historyIndex s < int (length (history s))"
    "list_all (\<lambda>d. iwidth d = cwidth c \<and> iheight d = cheight c) (history s)"
    "\<not> isDrawing s \<Longrightarrow> elemAt (history s) (historyIndex s) = getImageData c"
  shows "consistent s"
  using assms by (auto simp: consistent_def)

lemma consistentD:
  assumes "consistent s"
  obtains c where "\<not> isLoading s" "drawingCanvas s = Some c" "0 < cwidth c" "0 < cheight c"
    "0 \<le> historyIndex s" "historyIndex s < int (length (history s))"
    "list_all (\<lambda>d. iwidth d = cwidth c \<and> iheight d = cheight c) (history s)"
    "\<not> isDrawing s \<longrightarrow> elemAt (history s) (historyIndex s) = getImageData c"
  using assms by (auto simp: consistent_def split: option.splits)

lemma getImageData_cong:
  "cwidth c' = cwidth c \<Longrightarrow> cheight c' = cheight c \<Longrightarrow> bitmap c' = bitmap c \<Longrightarrow>
   getImageData c' = getImageData c"
  by (simp add: getImageData_def)

lemma list_all_nth: "list_all P xs \<Longrightarrow> n < length xs \<Longrightarrow> P (xs ! n)"
  by (simp add: list_all_length)

lemma list_all_take_snoc: "list_all P xs \<Longrightarrow> P x \<Longrightarrow> list_all P (take n xs @ [x])"
  by (auto simp: list_all_iff dest: in_set_takeD)

lemma consistent_startDrawing:
  assumes "consistent s" shows "consistent (startDrawing e r s)"
proof -
  from assms obtain c where c: "\<not> isLoading s" "drawingCanvas s = Some c" "0 < cwidth c"
    "0 < cheight c" "0 \<le> historyIndex s" "historyIndex s < int (length (history s))"
    "list_all (\<lambda>d. iwidth d = cwidth c \<and> iheight d = cheight c) (history s)"
    "\<not> isDrawing s \<longrightarrow> elemAt (history s) (historyIndex s) = getImageData c"
    by (rule consistentD)
  let ?t = "startDrawing e r s"
  from startDrawing_canvas [OF c(1,2)] obtain c' where c':
    "drawingCanvas ?t = Some c'" "cwidth c' = cwidth c" "cheight c' = cheight c"
    "bitmap c' = bitmap c" by blast
  have fr: "history ?t = history s" "historyIndex ?t = historyIndex s" "\<not> isLoading ?t"
    using startDrawing_frame [OF c(1)] by simp_all
  have dr: "isDrawing ?t = (client e \<noteq> None \<or> isDrawing s)"
    using c(1,2) by (rule startDrawing_isDrawing)
  have g: "getImageData c' = getImageData c"
    using c'(2,3,4) by (rule getImageData_cong)
  show ?thesis
  proof (rule consistentI [OF fr(3) c'(1)])
    show "\<not> isDrawing ?t \<Longrightarrow> elemAt (history ?t) (historyIndex ?t) = getImageData c'"
      using dr c(8) by (simp add: fr g)
  qed (use c c' fr in simp_all)
qed

lemma consistent_draw:
  assumes "consistent s" shows "consistent (draw e r s)"
proof -
  from assms obtain c where c: "\<not> isLoading s" "drawingCanvas s = Some c" "0 < cwidth c"
    "0 < cheight c" "0 \<le> historyIndex s" "historyIndex s < int (length (history s))"
    "list_all (\<lambda>d. iwidth d = cwidth c \<and> iheight d = cheight c) (history s)"
    "\<not> isDrawing s \<longrightarrow> elemAt (history s) (historyIndex s) = getImageData c"
    by (rule consistentD)
  let ?t = "draw e r s"
  from draw_canvas [OF c(1,2)] obtain c' where c':
    "drawingCanvas ?t = Some c'" "cwidth c' = cwidth c" "cheight c' = cheight c"
    "\<not> isDrawing s \<longrightarrow> c' = c" by blast
  have fr: "history ?t = history s" "historyIndex ?t = historyIndex s"
    "isDrawing ?t = isDrawing s" "\<not> isLoading ?t"
    using draw_frame [OF c(1)] by simp_all
  show ?thesis
  proof (rule consistentI [OF fr(4) c'(1)])
    show "\<not> isDrawing ?t \<Longrightarrow> elemAt (history ?t) (historyIndex ?t) = getImageData c'"
      using c(8) c'(4) by (simp add: fr)
  qed (use c c' fr in simp_all)
qed

lemma consistent_stopDrawing:
  assumes "consistent s" shows "consistent (stopDrawing s)"
proof (cases "isDrawing s")
  case False
  then show ?thesis using assms by (simp add: stopDrawing_def)
next
  case True
  from assms obtain c where c: "\<not> isLoading s" "drawingCanvas s = Some c" "0 < cwidth c"
    "0 < cheight c" "0 \<le> historyIndex s" "historyIndex s < int (length (history s))"
    "list_all (\<lambda>d. iwidth d = cwidth c \<and> iheight d = cheight c) (history s)"
    by (rule consistentD)
  define d where "d = \<lparr>iwidth = cwidth c, iheight = cheight c, idata = bitmap c\<rparr>"
  have g: "getImageData c = Some d"
    using c(3,4) by (simp add: getImageData_sized d_def)
  have sl: "js_slice (history s) (historyIndex s + 1) = take (nat (historyIndex s) + 1) (history s)"
    using c(5,6) by (rule js_slice_valid)
  have len: "length (take (nat (historyIndex s) + 1) (history s)) = nat (historyIndex s) + 1"
    using c(5,6) by simp
  have eq: "stopDrawing s =
     s\<lparr>drawingCanvas := Some (closePath c), isDrawing := False,
        history := take (nat (historyIndex s) + 1) (history s) @ [d],
        historyIndex := int (length (take (nat (historyIndex s) + 1) (history s)))\<rparr>"
    using stopDrawing_effect [OF True c(1,2) g] by (simp only: sl)
  have dims: "cwidth (closePath c) = cwidth c" "cheight (closePath c) = cheight c"
    by (simp_all add: closePath_def)
  have all: "list_all (\<lambda>d. iwidth d = cwidth c \<and> iheight d = cheight c)
      (take (nat (historyIndex s) + 1) (history s) @ [d])"
    using c(7) by (rule list_all_take_snoc) (simp add: d_def)
  show ?thesis
    unfolding eq
  proof (rule consistentI [where c = "closePath c"])
    show "elemAt (history (s\<lparr>drawingCanvas := Some (closePath c), isDrawing := False,
        history := take (nat (historyIndex s) + 1) (history s) @ [d],
        historyIndex := int (length (take (nat (historyIndex s) + 1) (history s)))\<rparr>))
       (historyIndex (s\<lparr>drawingCanvas := Some (closePath c), isDrawing := False,
        history := take (nat (historyIndex s) + 1) (history s) @ [d],
        historyIndex := int (length (take (nat (historyIndex s) + 1) (history s)))\<rparr>))
       = getImageData (closePath c)"
      by (simp add: elemAt_snoc_last getImageData_closePath g del: length_take)
  qed (use c dims all len in simp_all)
qed

subsection \<open>Every handler keeps a session consistent\<close>

lemma consistent_restore:
  assumes c: "\<not> isLoading s" "drawingCanvas s = Some c" "0 < cwidth c"
    "0 < cheight c" "0 \<le> historyIndex s" "historyIndex s < int (length (history s))"
    "list_all (\<lambda>d. iwidth d = cwidth c \<and> iheight d = cheight c) (history s)"
    and j: "0 \<le> j" "j < int (length (history s))"
  shows "consistent (s\<lparr>drawingCanvas := Some (putImageData (history s ! nat j) c),
                        historyIndex := j\<rparr>)"
proof -
  let ?d = "history s ! nat j"
  have dims: "iwidth ?d = cwidth c \<and> iheight ?d = cheight c"
    using list_all_nth [OF c(7), of "nat j"] j by simp
  have put: "putImageData ?d c = c\<lparr>bitmap := idata ?d\<rparr>"
    using dims by (simp add: putImageData_fits)
  have g: "getImageData (putImageData ?d c) = Some ?d"
    using dims c(3,4) by (simp add: getImageData_putImageData)
  show ?thesis
  proof (rule consistentI [where c = "putImageData ?d c"])
    show "elemAt (history (s\<lparr>drawingCanvas := Some (putImageData ?d c), historyIndex := j\<rparr>))
        (historyIndex (s\<lparr>drawingCanvas := Some (putImageData ?d c), historyIndex := j\<rparr>))
      = getImageData (putImageData ?d c)"
      using j by (simp add: g elemAt_valid)
  qed (use c j in \<open>simp_all add: put\<close>)
qed

lemma consistent_handleUndo:
  assumes "consistent s" shows "consistent (handleUndo s)"
proof (cases "0 < historyIndex s")
  case False
  then show ?thesis using assms by (simp add: handleUndo_def)
next
  case True
  from assms obtain c where c: "\<not> isLoading s" "drawingCanvas s = Some c" "0 < cwidth c"
    "0 < cheight c" "0 \<le> historyIndex s" "historyIndex s < int (length (history s))"
    "list_all (\<lambda>d. iwidth d = cwidth c \<and> iheight d = cheight c) (history s)"
    by (rule consistentD)
  have j: "0 \<le> historyIndex s - 1" "historyIndex s - 1 < int (length (history s))"
    using True c(6) by simp_all
  have e: "elemAt (history s) (historyIndex s - 1) = Some (history s ! nat (historyIndex s - 1))"
    using j by (rule elemAt_valid)
  show ?thesis
    unfolding handleUndo_effect [OF True c(1,2) e]
    using c j by (rule consistent_restore)
qed

lemma consistent_handleRedo:
  assumes "consistent s" shows "consistent (handleRedo s)"
proof (cases "historyIndex s < int (length (history s)) - 1")
  case False
  then show ?thesis using assms by (simp add: handleRedo_def)
next
  case True
  from assms obtain c where c: "\<not> isLoading s" "drawingCanvas s = Some c" "0 < cwidth c"
    "0 < cheight c" "0 \<le> historyIndex s" "historyIndex s < int (length (history s))"
    "list_all (\<lambda>d. iwidth d = cwidth c \<and> iheight d = cheight c) (history s)"
    by (rule consistentD)
  have j: "0 \<le> historyIndex s + 1" "historyIndex s + 1 < int (length (history s))"
    using True c(5) by simp_all
  have e: "elemAt (history s) (historyIndex s + 1) = Some (history s ! nat (historyIndex s + 1))"
    using j by (rule elemAt_valid)
  show ?thesis
    unfolding handleRedo_effect [OF True c(1,2) e]
    using c j by (rule consistent_restore)
qed

text \<open>What \<open>handleClear\<close> does to a consistent editor: it keeps the entries up to the
  index and appends the baseline snapshot.\<close>

lemma handleClear_consistent_effect:
  assumes c: "\<not> isLoading s" "drawingCanvas s = Some c" "0 < cwidth c"
    "0 < cheight c" "0 \<le> historyIndex s" "historyIndex s < int (length (history s))"
    "list_all (\<lambda>d. iwidth d = cwidth c \<and> iheight d = cheight c) (history s)"
  shows "handleClear s =
     s\<lparr>drawingCanvas := Some (putImageData (history s ! 0) c),
        history := take (nat (historyIndex s) + 1) (history s) @ [history s ! 0],
        historyIndex := historyIndex s + 1\<rparr>"
proof -
  let ?d = "history s ! 0"
  have ne: "0 < int (length (history s))" using c(5,6) by linarith
  have e: "elemAt (history s) 0 = Some ?d"
    using ne by (simp add: elemAt_def)
  have dims: "iwidth ?d = cwidth c \<and> iheight ?d = cheight c"
    using list_all_nth [OF c(7), of 0] ne by simp
  have g: "getImageData (putImageData ?d c) = Some ?d"
    using dims c(3,4) by (simp add: getImageData_putImageData)
  have sl: "js_slice (history s) (historyIndex s + 1) = take (nat (historyIndex s) + 1) (history s)"
    using c(5,6) by (rule js_slice_valid)
  have len: "int (length (take (nat (historyIndex s) + 1) (history s))) = historyIndex s + 1"
    using c(5,6) by simp
  show ?thesis
    using handleClear_effect [OF c(1,2) e g] by (simp only: sl len)
qed

lemma consistent_handleClear:
  assumes "consistent s" shows "consistent (handleClear s)"
proof -
  from assms obtain c where c: "\<not> isLoading s" "drawingCanvas s = Some c" "0 < cwidth c"
    "0 < cheight c" "0 \<le> historyIndex s" "historyIndex s < int (length (history s))"
    "list_all (\<lambda>d. iwidth d = cwidth c \<and> iheight d = cheight c) (history s)"
    by (rule consistentD)
  let ?d = "history s ! 0"
  let ?h = "take (nat (historyIndex s) + 1) (history s) @ [?d]"
  have ne: "0 < length (history s)" using c(5,6) by linarith
  have dims: "iwidth ?d = cwidth c \<and> iheight ?d = cheight c"
    using list_all_nth [OF c(7), of 0] ne by simp
  have put: "putImageData ?d c = c\<lparr>bitmap := idata ?d\<rparr>"
    using dims by (simp add: putImageData_fits)
  have g: "getImageData (putImageData ?d c) = Some ?d"
    using dims c(3,4) by (simp add: getImageData_putImageData)
  have len: "int (length (take (nat (historyIndex s) + 1) (history s))) = historyIndex s + 1"
    using c(5,6) by simp
  have all: "list_all (\<lambda>d. iwidth d = cwidth c \<and> iheight d = cheight c) ?h"
    using c(7) dims by (rule list_all_take_snoc)
  have last: "elemAt ?h (historyIndex s + 1) = Some ?d"
    using elemAt_snoc_last [of "take (nat (historyIndex s) + 1) (history s)" ?d]
    by (simp only: len)
  show ?thesis
    unfolding handleClear_consistent_effect [OF c]
  proof (rule consistentI [where c = "putImageData ?d c"])
    show "elemAt (history (s\<lparr>drawingCanvas := Some (putImageData ?d c), history := ?h,
              historyIndex := historyIndex s + 1\<rparr>))
            (historyIndex (s\<lparr>drawingCanvas := Some (putImageData ?d c), history := ?h,
              historyIndex := historyIndex s + 1\<rparr>))
          = getImageData (putImageData ?d c)"
      using last by (simp add: g)
    show "list_all (\<lambda>d. iwidth d = cwidth (putImageData ?d c) \<and> iheight d = cheight (putImageData ?d c))
       (history (s\<lparr>drawingCanvas := Some (putImageData ?d c), history := ?h,
              historyIndex := historyIndex s + 1\<rparr>))"
      using all by (simp add: put)
    show "historyIndex (s\<lparr>drawingCanvas := Some (putImageData ?d c), history := ?h,
              historyIndex := historyIndex s + 1\<rparr>)
       < int (length (history (s\<lparr>drawingCanvas := Some (putImageData ?d c), history := ?h,
              historyIndex := historyIndex s + 1\<rparr>)))"
      using len by simp
  qed (use c in \<open>simp_all add: put\<close>)
qed

lemma consistent_brush:
  assumes "consistent s" shows "consistent (finish s (drawingCanvas s) [SetBrushSize b])"
  using assms
  by (auto simp: consistent_def finish_def render_def commit_def split: option.splits)

lemma consistent_step: "consistent s \<Longrightarrow> consistent (step e s)"
  by (cases e)
     (simp_all add: consistent_startDrawing consistent_draw consistent_stopDrawing
        consistent_handleUndo consistent_handleRedo consistent_handleClear consistent_brush)

lemma consistent_run: "consistent s \<Longrightarrow> consistent (run evs s)"
  unfolding run_def by (induction evs arbitrary: s) (simp_all add: consistent_step)

lemma onload_succeeds:
  assumes "historyIndex (onload iw ih cw vh initial) = 0"
  shows "\<exists>w h. 0 < w \<and> 0 < h \<and>
           onload iw ih cw vh initial =
             initial\<lparr>history := [\<lparr>iwidth = w, iheight = h, idata = Transparent\<rparr>],
                     historyIndex := 0,
                     drawingCanvas := Some (newCanvas\<lparr>cwidth := w, cheight := h\<rparr>)\<rparr>"
proof -
  obtain x y where g: "displayGeometry iw ih cw vh = (x, y)"
    by (cases "displayGeometry iw ih cw vh")
  let ?w = "nat \<lfloor>x\<rfloor>" and ?h = "nat \<lfloor>y\<rfloor>"
  have pos: "0 < ?w \<and> 0 < ?h"
  proof (rule ccontr)
    assume "\<not> (0 < ?w \<and> 0 < ?h)"
    then have "getImageData (setSize ?w ?h newCanvas) = None"
      by (auto simp: getImageData_def setSize_def)
    then have "historyIndex (onload iw ih cw vh initial) = - 1"
      by (simp add: onload_def initial_def g)
    with assms show False by simp
  qed
  then have "getImageData (setSize ?w ?h newCanvas) =
      Some \<lparr>iwidth = ?w, iheight = ?h, idata = Transparent\<rparr>"
    by (simp add: getImageData_def setSize_def newCanvas_def)
  then have "onload iw ih cw vh initial =
             initial\<lparr>history := [\<lparr>iwidth = ?w, iheight = ?h, idata = Transparent\<rparr>],
                     historyIndex := 0,
                     drawingCanvas := Some (newCanvas\<lparr>cwidth := ?w, cheight := ?h\<rparr>)\<rparr>"
    by (simp add: onload_def initial_def g finish_def render_def commit_def setSize_def)
  with pos show ?thesis by blast
qed

lemma consistent_onload:
  assumes "historyIndex (onload iw ih cw vh initial) = 0"
  shows "consistent (onload iw ih cw vh initial)"
proof -
  from onload_succeeds [OF assms] obtain w h where wh: "0 < w" "0 < h"
    "onload iw ih cw vh initial =
       initial\<lparr>history := [\<lparr>iwidth = w, iheight = h, idata = Transparent\<rparr>],
               historyIndex := 0,
               drawingCanvas := Some (newCanvas\<lparr>cwidth := w, cheight := h\<rparr>)\<rparr>"
    by blast
  show ?thesis
    unfolding wh(3) using wh(1,2)
    by (simp add: consistent_def initial_def newCanvas_def elemAt_def getImageData_def)
qed

lemma stopDrawing_consistent_effect:
  assumes "consistent s" "isDrawing s"
  shows "\<exists>d. history (stopDrawing s) = take (nat (historyIndex s) + 1) (history s) @ [d] \<and>
          historyIndex (stopDrawing s) = historyIndex s + 1 \<and> \<not> isDrawing (stopDrawing s)"
proof -
  from assms(1) obtain c where c: "\<not> isLoading s" "drawingCanvas s = Some c" "0 < cwidth c"
    "0 < cheight c" "0 \<le> historyIndex s" "historyIndex s < int (length (history s))"
    by (rule consistentD)
  define d where "d = \<lparr>iwidth = cwidth c, iheight = cheight c, idata = bitmap c\<rparr>"
  have g: "getImageData c = Some d"
    using c(3,4) by (simp add: getImageData_sized d_def)
  have sl: "js_slice (history s) (historyIndex s + 1) = take (nat (historyIndex s) + 1) (history s)"
    using c(5,6) by (rule js_slice_valid)
  have len: "int (length (take (nat (historyIndex s) + 1) (history s))) = historyIndex s + 1"
    using c(5,6) by simp
  have eq: "stopDrawing s =
     s\<lparr>drawingCanvas := Some (closePath c), isDrawing := False,
        history := take (nat (historyIndex s) + 1) (history s) @ [d],
        historyIndex := historyIndex s + 1\<rparr>"
    using stopDrawing_effect [OF assms(2) c(1,2) g] by (simp only: sl len)
  show ?thesis
    unfolding eq by simp
qed

lemma moves_frame:
  assumes "consistent s" "isDrawing s"
  shows "consistent (run (map (\<lambda>(e', r'). PointerMove e' r') ms) s) \<and>
         isDrawing (run (map (\<lambda>(e', r'). PointerMove e' r') ms) s) \<and>
         history (run (map (\<lambda>(e', r'). PointerMove e' r') ms) s) = history s \<and>
         historyIndex (run (map (\<lambda>(e', r'). PointerMove e' r') ms) s) = historyIndex s"
  using assms
proof (induction ms arbitrary: s)
  case Nil
  then show ?case by (simp add: run_def)
next
  case (Cons m ms)
  obtain e r where m: "m = (e, r)" by (cases m)
  have nl: "\<not> isLoading s" using Cons.prems(1) by (simp add: consistent_def)
  have fr: "history (draw e r s) = history s" "historyIndex (draw e r s) = historyIndex s"
    "isDrawing (draw e r s) = isDrawing s"
    using draw_frame [OF nl] by simp_all
  have "consistent (draw e r s)" using Cons.prems(1) by (rule consistent_draw)
  moreover have "isDrawing (draw e r s)" using Cons.prems(2) fr by simp
  ultimately show ?case
    using Cons.IH [of "draw e r s"] by (simp add: run_def m fr)
qed

lemma run_append: "run (xs @ ys) s = run ys (run xs s)"
  by (simp add: run_def)

lemma completedStroke_effect:
  assumes "consistent s" "client e \<noteq> None"
  shows "\<exists>d. history (run (completedStroke e r ms) s) =
               take (nat (historyIndex s) + 1) (history s) @ [d] \<and>
             historyIndex (run (completedStroke e r ms) s) = historyIndex s + 1 \<and>
             \<not> isDrawing (run (completedStroke e r ms) s)"
proof -
  from assms(1) obtain c where c: "\<not> isLoading s" "drawingCanvas s = Some c"
    by (rule consistentD)
  let ?s1 = "startDrawing e r s"
  let ?s2 = "run (map (\<lambda>(e', r'). PointerMove e' r') ms) ?s1"
  have c1: "consistent ?s1" using assms(1) by (rule consistent_startDrawing)
  have d1: "isDrawing ?s1" using startDrawing_isDrawing [OF c] assms(2) by simp
  have f1: "history ?s1 = history s" "historyIndex ?s1 = historyIndex s"
    using startDrawing_frame [OF c(1)] by simp_all
  from moves_frame [OF c1 d1] have m:
    "consistent ?s2" "isDrawing ?s2" "history ?s2 = history ?s1" "historyIndex ?s2 = historyIndex ?s1"
    by simp_all
  have r: "run (completedStroke e r ms) s = stopDrawing ?s2"
    by (simp add: completedStroke_def run_def)
  show ?thesis
    using stopDrawing_consistent_effect [OF m(1,2)] by (simp add: r m f1)
qed

lemma handleUndo_history: "history (handleUndo s) = history s"
  by (simp add: handleUndo_def finish_def render_def commit_def Let_def split: option.splits)

lemma handleRedo_history: "history (handleRedo s) = history s"
  by (simp add: handleRedo_def finish_def render_def commit_def Let_def split: option.splits)

lemma consistent_nonempty: "consistent s \<Longrightarrow> history s \<noteq> []"
  by (erule consistentD) auto

lemma baseline_step:
  assumes "consistent s"
  shows "elemAt (history (step e s)) 0 = elemAt (history s) 0"
proof (cases e)
  case (PointerDown p r)
  from assms have "\<not> isLoading s" by (simp add: consistent_def)
  then show ?thesis using startDrawing_frame [of s p r] by (simp add: PointerDown)
next
  case (PointerMove p r)
  from assms have "\<not> isLoading s" by (simp add: consistent_def)
  then show ?thesis using draw_frame [of s p r] by (simp add: PointerMove)
next
  case PointerUp
  show ?thesis
  proof (cases "isDrawing s")
    case False
    then show ?thesis by (simp add: PointerUp stopDrawing_def)
  next
    case True
    from stopDrawing_consistent_effect [OF assms True] obtain d where
      "history (stopDrawing s) = take (nat (historyIndex s) + 1) (history s) @ [d]" by blast
    then show ?thesis
      using consistent_nonempty [OF assms] by (simp add: PointerUp elemAt_take_snoc_0)
  qed
next
  case Undo
  then show ?thesis by (simp add: handleUndo_history)
next
  case Redo
  then show ?thesis by (simp add: handleRedo_history)
next
  case Clear
  from assms obtain c where c: "\<not> isLoading s" "drawingCanvas s = Some c" "0 < cwidth c"
    "0 < cheight c" "0 \<le> historyIndex s" "historyIndex s < int (length (history s))"
    "list_all (\<lambda>d. iwidth d = cwidth c \<and> iheight d = cheight c) (history s)"
    by (rule consistentD)
  show ?thesis
    using consistent_nonempty [OF assms]
    by (simp add: Clear handleClear_consistent_effect [OF c] elemAt_take_snoc_0)
next
  case (BrushSize b)
  then show ?thesis
    by (simp add: finish_def render_def commit_def split: option.splits)
qed

lemma baseline_run:
  "consistent s \<Longrightarrow> elemAt (history (run evs s)) 0 = elemAt (history s) 0"
proof (induction evs arbitrary: s)
  case Nil
  then show ?case by (simp add: run_def)
next
  case (Cons e evs)
  have "consistent (step e s)" using Cons.prems by (rule consistent_step)
  from Cons.IH [OF this] show ?case
    using baseline_step [OF Cons.prems, of e] by (simp add: run_def)
qed

subsection \<open>The example session\<close>

lemma exampleStroke_first: "run exampleStroke exampleLoaded = exampleAfter 1"
  by (simp add: exampleLoaded_eq exampleStroke_def exampleRect_def exampleAfter_def
      exampleSnapshot_def exampleCanvas_def eval_defs)

lemma exampleStroke_next: "run exampleStroke (exampleAfter n) = exampleAfter (Suc n)"
  by (simp add: exampleStroke_def exampleRect_def exampleAfter_def
      exampleSnapshot_def exampleCanvas_def eval_defs nat_add_distrib)

lemma exampleStroke_five:
  "run (exampleStroke @ exampleStroke @ exampleStroke @ exampleStroke @ exampleStroke)
     exampleLoaded = exampleAfter 5"
  by (simp add: run_append exampleStroke_first exampleStroke_next eval_nat_numeral)

lemma exampleUndone_reached:
  "run (exampleStroke @ exampleStroke @ exampleStroke @ exampleStroke @ exampleStroke @
        [Undo, Undo, PointerDown (Mouse 60 70) exampleRect]) exampleLoaded = exampleUndone"
proof -
  have "run [Undo, Undo, PointerDown (Mouse 60 70) exampleRect] (exampleAfter 5) = exampleUndone"
    by (simp add: exampleAfter_def exampleUndone_def exampleRect_def exampleSnapshot_def
        exampleCanvas_def eval_nat_numeral eval_defs)
  then show ?thesis
    using exampleStroke_five by (simp add: run_append)
qed

text \<open>After \<open>n\<close> strokes a clear leaves \<open>n + 2\<close> entries and the index \<open>n + 1\<close>.\<close>

lemma clear_after_strokes:
  "length (history (handleClear (exampleAfter n))) = n + 2 \<and>
   historyIndex (handleClear (exampleAfter n)) = int n + 1"
  by (simp add: exampleAfter_def exampleSnapshot_def exampleCanvas_def handleClear_def
      saveToHistory_def finish_def render_def commit_def getImageData_def putImageData_def
      js_slice_def elemAt_def Let_def nth_append)

lemma exampleLoaded_index: "historyIndex (onload 800 600 1000 2000 initial) = 0"
  using exampleLoaded_eq by (simp add: exampleLoaded_def)


lemma exampleCleared_eq:
  "exampleCleared =
     \<lparr>isDrawing = False, isLoading = False, error = None, brushSize = 40,
      history = map exampleSnapshot [0, 1, 0], historyIndex = 2,
      drawingCanvas = Some (exampleCanvas 0
         [([(100, 100), (200, 200)], True), ([(100, 100)], False)])\<rparr>"
proof -
  have "exampleCleared = handleClear (exampleAfter 1)"
    unfolding exampleCleared_def run_append exampleStroke_first by (simp add: run_def)
  then show ?thesis
    by (simp add: exampleAfter_def exampleSnapshot_def exampleCanvas_def handleClear_def
        saveToHistory_def finish_def render_def commit_def getImageData_def putImageData_def
        js_slice_def elemAt_def Let_def)
qed



subsection \<open>Rounding and the size of the composite\<close>

lemma js_round_upper: "real_of_int (js_round x) \<le> x + 1 / 2"
  unfolding js_round_def by linarith

lemma js_round_lower: "x - 1 / 2 < real_of_int (js_round x)"
  unfolding js_round_def by linarith

lemma js_round_le: "x \<le> real_of_int n \<Longrightarrow> js_round x \<le> n"
  unfolding js_round_def by linarith

lemma js_round_nonneg: "0 \<le> x \<Longrightarrow> 0 \<le> js_round x"
  unfolding js_round_def by linarith

lemma targetDimensions_small:
  "w \<le> 1024 \<Longrightarrow> h \<le> 1024 \<Longrightarrow> targetDimensions w h = (int w, int h)"
  by (simp add: targetDimensions_def MAX_DIMENSION_def)

lemma targetDimensions_wide:
  "1024 < w \<or> 1024 < h \<Longrightarrow> h < w \<Longrightarrow>
   targetDimensions w h = (1024, js_round (1024 * real h / real w))"
  by (auto simp add: targetDimensions_def MAX_DIMENSION_def Let_def)

lemma targetDimensions_tall:
  "1024 < w \<or> 1024 < h \<Longrightarrow> w \<le> h \<Longrightarrow>
   targetDimensions w h = (js_round (1024 * real w / real h), 1024)"
  by (auto simp add: targetDimensions_def MAX_DIMENSION_def Let_def)

subsection \<open>Submissions\<close>

text \<open>
  A submission, failed or not, leaves the history and the index alone; one that passes
  the guard ends with a new canvas; a failure ends with its message in \<open>error\<close>.
\<close>

lemma submit_keeps_history:
  "history (fst (handleProcessImage env s)) = history s \<and>
   historyIndex (fst (handleProcessImage env s)) = historyIndex s"
  by (simp add: handleProcessImage_def finish_def render_def commit_def Let_def
      split: option.splits prod.splits sum.splits)

lemma submit_replaces_canvas:
  "drawingCanvas s = Some c \<Longrightarrow> historyIndex s \<noteq> 0 \<Longrightarrow>
   drawingCanvas (fst (handleProcessImage env s)) = Some newCanvas"
  by (simp add: handleProcessImage_def finish_def render_def commit_def Let_def
      split: option.splits prod.splits sum.splits)

lemma submit_failure_message:
  "drawingCanvas s = Some c \<Longrightarrow> historyIndex s \<noteq> 0 \<Longrightarrow> tryBody env c = (Inl err, effs) \<Longrightarrow>
   error (fst (handleProcessImage env s)) =
     Some (case err of ErrorObj m \<Rightarrow> m | OtherValue \<Rightarrow> ''An unknown error occurred.'')"
  by (simp add: handleProcessImage_def finish_def render_def commit_def Let_def)

subsection \<open>The two service files\<close>

text \<open>
  Whatever fails inside the \<open>try\<close> block, the file with two images reports the same
  message; the file the editor uses keeps the message of a refusal.
\<close>

lemma removeObject_part000_failure:
  "apiKeySet \<Longrightarrow> clientInit svc = None \<Longrightarrow> tryBlock (call svc) = Inl err \<Longrightarrow>
   removeObject_part000 apiKeySet svc originalImageBase64 maskImageBase64 mime =
     Inl (ErrorObj ''Failed to process the image with the AI model. Please try again.'')"
  by (simp add: removeObject_part000_def)

lemma removeObject_refusal:
  "clientInit svc = None \<Longrightarrow> call svc = Inr r \<Longrightarrow>
   (firstPart r = None \<or> (\<exists>p. firstPart r = Some p \<and> inlineData p = None)) \<Longrightarrow>
   removeObject svc img mime = Inl (ErrorObj (''Failed to process the image: '' @ refusalMessage))"
  by (auto simp: removeObject_def tryBlock_def)

section \<open>Snapshots\<close>

text \<open>
  C3. When the index \<open>i\<close> is not the last one (after an undo), \<open>saveToHistory\<close> sets
  the history to its first \<open>i + 1\<close> entries followed by the new snapshot, and the index
  to \<open>i + 1\<close>; the new history has \<open>i + 2\<close> entries. The witness draws five strokes,
  undoes two and starts a sixth: the snapshot then leaves \<open>3 + 2 = 5\<close> entries.
\<close>

theorem saveToHistory_truncates:
  assumes "getImageData c = Some d" "0 \<le> historyIndex s"
    "historyIndex s < int (length (history s)) - 1"
  shows "saveToHistory (history s) (historyIndex s) (Some c) =
           [SetHistory (take (nat (historyIndex s) + 1) (history s) @ [d]),
            SetHistoryIndex (historyIndex s + 1)] \<and>
         int (length (take (nat (historyIndex s) + 1) (history s) @ [d])) = historyIndex s + 2"
proof -
  from assms have lt: "historyIndex s < int (length (history s))" by simp
  have sl: "js_slice (history s) (historyIndex s + 1) = take (nat (historyIndex s) + 1) (history s)"
    using assms(2) lt by (rule js_slice_valid)
  have len: "length (take (nat (historyIndex s) + 1) (history s)) = nat (historyIndex s) + 1"
    using assms(2) lt by simp
  show ?thesis
    using assms(1,2) len by (simp add: saveToHistory_def sl Let_def)
qed

lemma exampleUndone_stroke_ends:
  "int (length (history (stopDrawing exampleUndone))) = historyIndex exampleUndone + 2 \<and>
   length (history (stopDrawing exampleUndone)) = 5 \<and>
   historyIndex (stopDrawing exampleUndone) = 4"
  by (simp add: exampleUndone_def exampleSnapshot_def exampleCanvas_def eval_defs)

theorem saveToHistory_truncates_witness:
  "getImageData (exampleCanvas 3 [([(100, 100)], False)]) = Some (exampleSnapshot 3) \<and>
   0 \<le> historyIndex exampleUndone \<and>
   historyIndex exampleUndone < int (length (history exampleUndone)) - 1 \<and>
   saveToHistory (history exampleUndone) (historyIndex exampleUndone)
       (Some (exampleCanvas 3 [([(100, 100)], False)])) =
     [SetHistory (map exampleSnapshot [0, 1, 2, 3] @ [exampleSnapshot 3]), SetHistoryIndex 4] \<and>
   length (map exampleSnapshot [0, 1, 2, 3] @ [exampleSnapshot 3]) = 5"
proof -
  have h1: "getImageData (exampleCanvas 3 [([(100, 100)], False)]) = Some (exampleSnapshot 3)"
    by (simp add: getImageData_def exampleCanvas_def exampleSnapshot_def)
  have h2: "0 \<le> historyIndex exampleUndone"
    by (simp add: exampleUndone_def)
  have h3: "historyIndex exampleUndone < int (length (history exampleUndone)) - 1"
    by (simp add: exampleUndone_def)
  show ?thesis
    using saveToHistory_truncates [OF h1 h2 h3] h1 h2 h3
    by (simp add: exampleUndone_def)
qed

section \<open>The history invariant\<close>

text \<open>
  C10. After a load that succeeded, whatever events follow (strokes, undo, redo, clear,
  brush changes), the index stays within the history, and the entry at index 0 is the
  one the load stored: a snapshot of the transparent mask.
\<close>

theorem history_invariant:
  assumes "historyIndex (onload iw ih cw vh initial) = 0"
  shows "0 \<le> historyIndex (run evs (onload iw ih cw vh initial)) \<and>
         historyIndex (run evs (onload iw ih cw vh initial))
           < int (length (history (run evs (onload iw ih cw vh initial)))) \<and>
         elemAt (history (run evs (onload iw ih cw vh initial))) 0
           = elemAt (history (onload iw ih cw vh initial)) 0 \<and>
         (\<exists>w h. elemAt (history (onload iw ih cw vh initial)) 0
                  = Some \<lparr>iwidth = w, iheight = h, idata = Transparent\<rparr>)"
proof -
  let ?s0 = "onload iw ih cw vh initial"
  have c0: "consistent ?s0" using assms by (rule consistent_onload)
  then have "consistent (run evs ?s0)" by (rule consistent_run)
  then have "0 \<le> historyIndex (run evs ?s0) \<and>
      historyIndex (run evs ?s0) < int (length (history (run evs ?s0)))"
    by (auto elim: consistentD)
  moreover have "elemAt (history (run evs ?s0)) 0 = elemAt (history ?s0) 0"
    using c0 by (rule baseline_run)
  moreover have "\<exists>w h. elemAt (history ?s0) 0 = Some \<lparr>iwidth = w, iheight = h, idata = Transparent\<rparr>"
    using onload_succeeds [OF assms] by (auto simp: elemAt_def)
  ultimately show ?thesis by blast
qed

theorem history_invariant_witness:
  "historyIndex (onload 800 600 1000 2000 initial) = 0 \<and>
   0 \<le> historyIndex exampleCleared \<and>
   historyIndex exampleCleared < int (length (history exampleCleared)) \<and>
   elemAt (history exampleCleared) 0 = Some \<lparr>iwidth = 800, iheight = 600, idata = Transparent\<rparr> \<and>
   elemAt (history exampleLoaded) 0 = Some \<lparr>iwidth = 800, iheight = 600, idata = Transparent\<rparr>"
  using history_invariant [OF exampleLoaded_index, of "exampleStroke @ [Clear]"]
    exampleLoaded_index
  by (simp add: exampleCleared_def exampleLoaded_def [symmetric] exampleLoaded_eq elemAt_def)

section \<open>Undo and redo\<close>




section \<open>Strokes\<close>

text \<open>
  C9. A stroke end while no stroke is active changes nothing: the state, with the path of
  the canvas and the history, stays as it is. In a session after a load, a completed
  stroke (pointer down at a position, any moves, none for a tap, pointer up) leaves the
  entries up to the index followed by exactly one new entry, and the index on it.
\<close>

theorem stroke_end:
  assumes "historyIndex (onload iw ih cw vh initial) = 0"
    and "s = run evs (onload iw ih cw vh initial)"
  shows "(\<not> isDrawing s \<longrightarrow> stopDrawing s = s) \<and>
         (client e \<noteq> None \<longrightarrow>
            (\<exists>d. history (run (completedStroke e r ms) s) =
                    take (nat (historyIndex s) + 1) (history s) @ [d]) \<and>
            int (length (history (run (completedStroke e r ms) s))) = historyIndex s + 2 \<and>
            historyIndex (run (completedStroke e r ms) s) = historyIndex s + 1 \<and>
            \<not> isDrawing (run (completedStroke e r ms) s))"
proof -
  have cs: "consistent s"
    unfolding assms(2) using assms(1) by (intro consistent_run consistent_onload)
  then have c: "0 \<le> historyIndex s" "historyIndex s < int (length (history s))"
    by (auto elim: consistentD)
  have "stopDrawing s = s" if "\<not> isDrawing s"
    using that by (simp add: stopDrawing_def)
  moreover have "(\<exists>d. history (run (completedStroke e r ms) s) =
                    take (nat (historyIndex s) + 1) (history s) @ [d]) \<and>
            int (length (history (run (completedStroke e r ms) s))) = historyIndex s + 2 \<and>
            historyIndex (run (completedStroke e r ms) s) = historyIndex s + 1 \<and>
            \<not> isDrawing (run (completedStroke e r ms) s)" if "client e \<noteq> None"
  proof -
    from completedStroke_effect [OF cs that, of r ms] obtain d where d:
      "history (run (completedStroke e r ms) s) = take (nat (historyIndex s) + 1) (history s) @ [d]"
      "historyIndex (run (completedStroke e r ms) s) = historyIndex s + 1"
      "\<not> isDrawing (run (completedStroke e r ms) s)" by blast
    have "int (length (take (nat (historyIndex s) + 1) (history s) @ [d])) = historyIndex s + 2"
      using c by simp
    with d show ?thesis by simp
  qed
  ultimately show ?thesis by blast
qed

theorem stroke_end_witness:
  "historyIndex (onload 800 600 1000 2000 initial) = 0 \<and>
   \<not> isDrawing exampleLoaded \<and> stopDrawing exampleLoaded = exampleLoaded \<and>
   client (Mouse 60 70) \<noteq> None \<and>
   int (length (history (run (completedStroke (Mouse 60 70) exampleRect []) exampleLoaded))) = 2 \<and>
   historyIndex (run (completedStroke (Mouse 60 70) exampleRect []) exampleLoaded) = 1"
proof -
  have s: "exampleLoaded = run [] (onload 800 600 1000 2000 initial)"
    by (simp add: run_def exampleLoaded_def)
  have i: "historyIndex exampleLoaded = 0" "\<not> isDrawing exampleLoaded"
    by (simp_all add: exampleLoaded_eq)
  show ?thesis
    using stroke_end [OF exampleLoaded_index s, of "Mouse 60 70" exampleRect "[]"]
      exampleLoaded_index i
    by simp
qed

section \<open>Clearing\<close>

text \<open>
  C1. After a load and one completed stroke, \<open>handleClear\<close> leaves three entries (the
  baseline, the stroke, the cleared mask) and the index 2: its call of
  \<open>saveToHistory\<close> still sees the history and the index from before the clear, and
  the setters of \<open>saveToHistory\<close> are the last ones applied.
\<close>

theorem clear_keeps_strokes:
  "history exampleCleared = map exampleSnapshot [0, 1, 0] \<and>
   length (history exampleCleared) = 3 \<and>
   historyIndex exampleCleared = 2"
  by (simp add: exampleCleared_eq)

section \<open>Coordinates\<close>

text \<open>
  C6. For a mounted canvas shown with a width and a height that are not zero,
  \<open>getCoordinates\<close> returns \<open>(clientX - rect.left) * (canvas.width / rect.width)\<close> and
  the same for \<open>y\<close>. Multiplying the size of the canvas and the size of its bounding
  box by the same factor \<open>k\<close>, for an event at the same offset from the corner of the
  box, gives the same coordinates.
\<close>

theorem getCoordinates_scale_invariant:
  assumes "rwidth r \<noteq> 0" "rheight r \<noteq> 0" "k \<noteq> 0"
    "real (cwidth c') = k * real (cwidth c)" "real (cheight c') = k * real (cheight c)"
    "rwidth r' = k * rwidth r" "rheight r' = k * rheight r"
    "client e = Some (x, y)" "client e' = Some (x', y')"
    "x' - rleft r' = x - rleft r" "y' - rtop r' = y - rtop r"
  shows "getCoordinates (Some c) r e =
           Inr (Some (Some ((x - rleft r) * (real (cwidth c) / rwidth r)),
                      Some ((y - rtop r) * (real (cheight c) / rheight r)))) \<and>
         getCoordinates (Some c') r' e' = getCoordinates (Some c) r e"
  using assms by (simp add: getCoordinates_def scaled_def)

theorem getCoordinates_scale_invariant_witness:
  "getCoordinates (Some (exampleCanvas 0 [])) exampleRect (Mouse 60 70) =
     Inr (Some (Some 100, Some 100)) \<and>
   getCoordinates (Some ((exampleCanvas 0 [])\<lparr>cwidth := 1600, cheight := 1200\<rparr>))
       (exampleRect\<lparr>rwidth := 800, rheight := 600\<rparr>) (Touch [(60, 70), (5, 5)]) =
     Inr (Some (Some 100, Some 100))"
  using getCoordinates_scale_invariant [of exampleRect 2
      "(exampleCanvas 0 [])\<lparr>cwidth := 1600, cheight := 1200\<rparr>" "exampleCanvas 0 []"
      "exampleRect\<lparr>rwidth := 800, rheight := 600\<rparr>" "Mouse 60 70" 60 70
      "Touch [(60, 70), (5, 5)]" 60 70]
  by (simp add: exampleRect_def exampleCanvas_def)

section \<open>Submission\<close>

text \<open>
  C2. When the index is 0, \<open>handleProcessImage\<close> shows the validation message and
  returns: the state is unchanged and the alert is its only effect, so the remote edit
  client is not called.
\<close>

theorem submit_without_marks:
  "historyIndex s = 0 \<Longrightarrow> handleProcessImage env s = (s, [Alert validationMessage])"
  by (simp add: handleProcessImage_def split: option.splits)

theorem submit_without_marks_witness:
  "historyIndex exampleLoaded = 0 \<and>
   handleProcessImage exampleRefusal exampleLoaded = (exampleLoaded, [Alert validationMessage])"
proof -
  have h: "historyIndex exampleLoaded = 0" by (simp add: exampleLoaded_eq)
  show ?thesis using submit_without_marks [OF h, of exampleRefusal] h by simp
qed

text \<open>
  C4. The size of the composite for a photo of \<open>w\<close> by \<open>h\<close> pixels: unchanged when
  neither side exceeds 1024; otherwise the longer side is exactly 1024 and the other side
  is the proportional value rounded to the nearest pixel; no side grows. A photo of 4000
  by 2000 gives 1024 by 512, one of 800 by 600 stays as it is.
\<close>

theorem targetDimensions_policy:
  assumes "targetDimensions w h = (w', h')"
  shows "(max w h \<le> 1024 \<longrightarrow> w' = int w \<and> h' = int h) \<and>
         (1024 < max w h \<longrightarrow>
            max w' h' = 1024 \<and>
            (h < w \<longrightarrow> w' = 1024 \<and> \<bar>real_of_int h' - 1024 * real h / real w\<bar> \<le> 1 / 2) \<and>
            (w \<le> h \<longrightarrow> h' = 1024 \<and> \<bar>real_of_int w' - 1024 * real w / real h\<bar> \<le> 1 / 2)) \<and>
         0 \<le> w' \<and> w' \<le> int w \<and> 0 \<le> h' \<and> h' \<le> int h \<and>
         targetDimensions 4000 2000 = (1024, 512) \<and>
         targetDimensions 800 600 = (800, 600)"
proof -
  have ex1: "targetDimensions 4000 2000 = (1024, 512)"
    by (simp add: targetDimensions_def MAX_DIMENSION_def js_round_def)
  have ex2: "targetDimensions 800 600 = (800, 600)"
    by (simp add: targetDimensions_def MAX_DIMENSION_def)
  consider (small) "w \<le> 1024" "h \<le> 1024" | (wide) "1024 < w \<or> 1024 < h" "h < w"
    | (tall) "1024 < w \<or> 1024 < h" "w \<le> h"
    by linarith
  then have "(max w h \<le> 1024 \<longrightarrow> w' = int w \<and> h' = int h) \<and>
         (1024 < max w h \<longrightarrow>
            max w' h' = 1024 \<and>
            (h < w \<longrightarrow> w' = 1024 \<and> \<bar>real_of_int h' - 1024 * real h / real w\<bar> \<le> 1 / 2) \<and>
            (w \<le> h \<longrightarrow> h' = 1024 \<and> \<bar>real_of_int w' - 1024 * real w / real h\<bar> \<le> 1 / 2)) \<and>
         0 \<le> w' \<and> w' \<le> int w \<and> 0 \<le> h' \<and> h' \<le> int h"
  proof cases
    case small
    then have m: "\<not> 1024 < max w h" by simp
    from assms small have "w' = int w" "h' = int h"
      by (simp_all add: targetDimensions_small)
    with m show ?thesis by simp
  next
    case wide
    let ?x = "1024 * real h / real w"
    from wide have w: "1024 < w" by linarith
    from assms wide have eq: "w' = 1024" "h' = js_round ?x"
      by (simp_all add: targetDimensions_wide)
    have x0: "0 \<le> ?x" by simp
    have "real h * 1024 \<le> real h * real w"
      by (rule mult_left_mono) (use w in simp_all)
    then have xh: "?x \<le> real h"
      using w by (simp add: divide_le_eq mult.commute)
    have "real h \<le> real w" using wide(2) by simp
    then have x1: "?x \<le> 1024"
      using w by (simp add: divide_le_eq)
    have b1: "h' \<le> int h" using js_round_le [of ?x "int h"] xh eq by simp
    have b2: "h' \<le> 1024" using js_round_le [of ?x 1024] x1 eq by simp
    have b3: "0 \<le> h'" using js_round_nonneg [OF x0] eq by simp
    have b4: "\<bar>real_of_int h' - ?x\<bar> \<le> 1 / 2"
      using js_round_upper [of ?x] js_round_lower [of ?x] eq by linarith
    have m: "\<not> max w h \<le> 1024" "\<not> w \<le> h" "max w' h' = 1024"
      using w wide(2) eq(1) b2 by simp_all
    have "0 \<le> w'" "w' \<le> int w" using w eq(1) by simp_all
    with m b1 b3 b4 eq(1) wide(2) show ?thesis by blast
  next
    case tall
    let ?x = "1024 * real w / real h"
    from tall have h: "1024 < h" by linarith
    from assms tall have eq: "h' = 1024" "w' = js_round ?x"
      by (simp_all add: targetDimensions_tall)
    have x0: "0 \<le> ?x" by simp
    have "real w * 1024 \<le> real w * real h"
      by (rule mult_left_mono) (use h in simp_all)
    then have xw: "?x \<le> real w"
      using h by (simp add: divide_le_eq mult.commute)
    have "real w \<le> real h" using tall(2) by simp
    then have x1: "?x \<le> 1024"
      using h by (simp add: divide_le_eq)
    have b1: "w' \<le> int w" using js_round_le [of ?x "int w"] xw eq by simp
    have b2: "w' \<le> 1024" using js_round_le [of ?x 1024] x1 eq by simp
    have b3: "0 \<le> w'" using js_round_nonneg [OF x0] eq by simp
    have b4: "\<bar>real_of_int w' - ?x\<bar> \<le> 1 / 2"
      using js_round_upper [of ?x] js_round_lower [of ?x] eq by linarith
    have m: "\<not> max w h \<le> 1024" "\<not> h < w" "max w' h' = 1024"
      using h tall(2) eq(1) b2 by simp_all
    have "0 \<le> h'" "h' \<le> int h" using h eq(1) by simp_all
    with m b1 b3 b4 eq(1) tall(2) show ?thesis by blast
  qed
  with ex1 ex2 show ?thesis by simp
qed

theorem targetDimensions_policy_witness:
  "targetDimensions 1025 1000 = (1024, 999) \<and>
   max (1024 :: int) 999 = 1024 \<and>
   \<bar>real_of_int 999 - 1024 * real 1000 / real 1025\<bar> \<le> 1 / 2 \<and>
   (999 :: int) \<le> int 1000"
proof -
  have "\<lfloor>(1024 :: real) / (1025 / 1000) + 1 / 2\<rfloor> = 999"
    by (simp add: floor_eq_iff)
  then have h: "targetDimensions 1025 1000 = (1024, 999)"
    by (simp add: targetDimensions_def MAX_DIMENSION_def js_round_def)
  show ?thesis
    using targetDimensions_policy [OF h] h by simp
qed

text \<open>
  C7. A submission after one stroke, answered by the service without an image: the
  failure is caught, the message is stored in \<open>error\<close>, and the history and the index
  are as before; the canvas of the mask, removed while the spinner was shown, is a new
  transparent canvas of 300 by 150 pixels, where there was a stroke on 800 by 600.
\<close>

theorem failed_submit_loses_mask:
  "handleProcessImage exampleRefusal (exampleAfter 1) =
     ((exampleAfter 1)\<lparr>error := Some (''Failed to process the image: '' @ refusalMessage),
                        drawingCanvas := Some newCanvas\<rparr>,
      [RemoteCall \<lparr>pwidth = 800, pheight = 600, overlay = exampleSnapshot 1\<rparr> ''image/jpeg'',
       ConsoleError (ErrorObj (''Failed to process the image: '' @ refusalMessage))]) \<and>
   drawingCanvas (exampleAfter 1) =
     Some (exampleCanvas 1 [([(100, 100), (200, 200)], True), ([(100, 100)], False)]) \<and>
   bitmap (exampleCanvas 1 [([(100, 100), (200, 200)], True), ([(100, 100)], False)]) \<noteq>
     bitmap newCanvas"
  by (simp add: handleProcessImage_def tryBody_def removeObject_def tryBlock_def firstPart_def
      exampleRefusal_def exampleNoImage_def exampleAfter_def exampleCanvas_def newCanvas_def
      exampleSnapshot_def refusalMessage_def finish_def render_def commit_def
      targetDimensions_def MAX_DIMENSION_def Let_def)

section \<open>Refusals of the service\<close>

text \<open>
  C8. In the service file with two images, a response without an image and a call that
  fails end in the same error, with the same message: the error thrown for the missing
  image is caught by the \<open>catch\<close> of the same function and replaced.
\<close>

theorem refusal_not_distinct_part000:
  "removeObject_part000 True exampleNoImage ''data:image/jpeg;base64,AAAA'' ''data:image/png;base64,BBBB'' ''image/jpeg''
     = Inl (ErrorObj ''Failed to process the image with the AI model. Please try again.'') \<and>
   removeObject_part000 True exampleNetworkDown ''data:image/jpeg;base64,AAAA'' ''data:image/png;base64,BBBB'' ''image/jpeg''
     = Inl (ErrorObj ''Failed to process the image with the AI model. Please try again.'')"
  by (simp add: removeObject_part000_def tryBlock_def firstPart_def exampleNoImage_def
      exampleNetworkDown_def)

end
